theory Spec2Isabelle
  imports Main "HOL-Library.Signed_Division"
begin

section \<open>Go values\<close>

text \<open>
  A \<open>time.Time\<close> is held as its whole seconds since the Unix epoch and the nanoseconds
  within that second. The service only ever reads a time through \<open>Unix()\<close> (which drops
  the nanoseconds) and only ever builds one with \<open>time.Unix(sec, 0)\<close>.
  \<open>IsZero\<close> holds for the zero \<open>time.Time\<close> alone: January 1 of year 1, which lies
  62135596800 seconds before the epoch.
\<close>

datatype gotime = Time (sec: int) (nsec: nat)

definition Unix :: "gotime \<Rightarrow> int" where
  "Unix t = sec t"

definition time_Unix :: "int \<Rightarrow> nat \<Rightarrow> gotime" where
  "time_Unix s n = Time s n"

definition IsZero :: "gotime \<Rightarrow> bool" where
  "IsZero t = (sec t = - 62135596800 \<and> nsec t = 0)"

definition Before :: "gotime \<Rightarrow> gotime \<Rightarrow> bool" where
  "Before t u = (sec t < sec u \<or> (sec t = sec u \<and> nsec t < nsec u))"

text \<open>
  A Go call either panics or returns. A Go \<open>error\<close> result is an \<open>error option\<close>
  (\<open>None\<close> is \<open>nil\<close>); a pointer or slice result that may be \<open>nil\<close> is an option too.
\<close>

datatype panic = NilPointerDereference | InterfaceConversion

datatype 'a exec = Panics panic | Returns 'a

datatype error =
    ConnectionFailure
  | TransactionFailure
  | ConstraintViolation
  | ResultNotSingle
  | InvalidLimit
  | DecodeFailure

section \<open>Events and their tags (go-nostr)\<close>

text \<open>
  \<open>nostr.Event\<close> with the fields the service reads. A tag is a list of strings, key
  first. The tag functions are those of the go-nostr library: \<open>StartsWith\<close> compares all
  but the last element of the prefix for equality and the last one with
  \<open>strings.HasPrefix\<close>; \<open>GetAll\<close> keeps the matching tags in order; \<open>GetLast\<close>
  is the last matching tag or \<open>nil\<close>; \<open>Value\<close> is the second element, or the empty
  string when the tag has none. The service passes one-element prefixes only (the
  empty prefix, on which the library would index out of range, never occurs).
\<close>

record Event =
  ID :: string
  PubKey :: string
  CreatedAt :: gotime
  Kind :: int
  Tags :: "string list list"
  Content :: string

definition HasPrefix :: "string \<Rightarrow> string \<Rightarrow> bool" where
  "HasPrefix s p = (take (length p) s = p)"

definition StartsWith :: "string list \<Rightarrow> string list \<Rightarrow> bool" where
  "StartsWith tag pre =
     (if length pre > length tag then False
      else take (length pre - 1) pre = take (length pre - 1) tag
           \<and> HasPrefix (tag ! (length pre - 1)) (pre ! (length pre - 1)))"

definition GetAll :: "string list list \<Rightarrow> string list \<Rightarrow> string list list" where
  "GetAll tags pre = filter (\<lambda>v. StartsWith v pre) tags"

definition GetLast :: "string list list \<Rightarrow> string list \<Rightarrow> string list option" where
  "GetLast tags pre = find (\<lambda>v. StartsWith v pre) (rev tags)"

definition Value :: "string list \<Rightarrow> string" where
  "Value tag = (if length tag > 1 then tag ! 1 else [])"

text \<open>
  The invoice decoder \<open>decodepay.Decodepay\<close> is an external library: it is a parameter of
  the model, a function from the invoice string to an error or the decoded invoice, of
  which the service reads \<open>MSatoshi\<close> (an \<open>int64\<close>).
\<close>

record Bolt11 =
  MSatoshi :: int

type_synonym decoder = "string \<Rightarrow> error + Bolt11"

section \<open>The graph store\<close>

text \<open>
  The property graph as the statements of the service build it. \<open>InitDatabase\<close> installs
  the uniqueness constraints \<open>post_id_uniq\<close> and \<open>user_pk_uniq\<close>, so a User node is
  identified by its pubkey and a Post node by its id, and a relationship is held as its
  type, the keys of its two end nodes and, for ZAP, its amount. Nodes and relationships
  are lists in creation order, so that a duplicate would show.
\<close>

record Post =
  p_id :: string
  p_kind :: int
  p_author :: string
  p_content :: string
  p_created_at :: int

record SubscriberNode =
  s_pubkey :: string
  s_channel_secret :: string
  s_subscribed_at :: int
  s_unsubscribed_at :: "int option"

datatype reltype = CREATE | REPLY | LIKE | ZAP | FOLLOW

datatype rel = Rel (rtype: reltype) (src: string) (dst: string) (amount: "int option")

record graph =
  users :: "string list"
  posts :: "Post list"
  subscribers :: "SubscriberNode list"
  rels :: "rel list"

definition empty_graph :: graph where
  "empty_graph = \<lparr>users = [], posts = [], subscribers = [], rels = []\<rparr>"

text \<open>
  Modelled from the spec: \<open>ExecuteWrite\<close> of the adapter \<open>database.Neo4jDb\<close> (package
  \<open>database\<close> of this repository, absent here), which the specification describes as a
  thin pass-through that owns the transaction boundaries, over a store with atomic
  transactions. It runs the work in one managed transaction: when the store fails
  (\<open>fault\<close>, a connection or transaction failure at any point of it) or the work
  returns an error, the transaction is rolled back, the graph is as before and the error
  is returned; otherwise the work's graph is committed.
\<close>

definition ExecuteWrite ::
  "error option \<Rightarrow> graph \<Rightarrow> (graph \<Rightarrow> error + graph) \<Rightarrow> error option \<times> graph" where
  "ExecuteWrite fault g work =
     (case fault of
        Some e \<Rightarrow> (Some e, g)
      | None \<Rightarrow> (case work g of Inl e \<Rightarrow> (Some e, g) | Inr g' \<Rightarrow> (None, g')))"

text \<open>
  Modelled from the spec: \<open>ExecuteRead\<close> of the same absent adapter. It returns the
  store's failure, or else what the work returns; a panic of the work is not recovered.
\<close>

definition ExecuteRead ::
  "error option \<Rightarrow> graph \<Rightarrow> (graph \<Rightarrow> (error + 'a) exec) \<Rightarrow> (error + 'a) exec" where
  "ExecuteRead fault g work =
     (case fault of Some e \<Rightarrow> Returns (Inl e) | None \<Rightarrow> work g)"

text \<open>Sequencing of statements inside a transaction: the first error ends the work.\<close>

definition and_then :: "error + graph \<Rightarrow> (graph \<Rightarrow> error + graph) \<Rightarrow> error + graph" where
  "and_then r f = (case r of Inl e \<Rightarrow> Inl e | Inr g \<Rightarrow> f g)"

subsection \<open>The Cypher statements of the write path\<close>

text \<open>\<open>MERGE\<close> of a pattern creates it only when nothing matches it.\<close>

definition merge_into :: "'a list \<Rightarrow> 'a \<Rightarrow> 'a list" where
  "merge_into xs x = (if x \<in> set xs then xs else xs @ [x])"

text \<open>\<^verbatim>\<open>merge (u:User {pubkey: $Pubkey});\<close>\<close>

definition run_merge_user :: "string \<Rightarrow> graph \<Rightarrow> error + graph" where
  "run_merge_user pubkey g = Inr (g\<lparr>users := merge_into (users g) pubkey\<rparr>)"

text \<open>
  \<^verbatim>\<open>merge (p:Post {id: $Id, kind: $Kind, author: $Author, content: $Content, created_at: $CreatedAt});\<close>
  A Post with all five properties equal matches. Otherwise the node is created, which
  the constraint \<open>post_id_uniq\<close> refuses when another Post has the id.
\<close>

definition run_merge_post :: "Post \<Rightarrow> graph \<Rightarrow> error + graph" where
  "run_merge_post p g =
     (if p \<in> set (posts g) then Inr g
      else if p_id p \<in> set (map p_id (posts g)) then Inl ConstraintViolation
      else Inr (g\<lparr>posts := posts g @ [p]\<rparr>))"

text \<open>
  \<^verbatim>\<open>match (u:User), (p:Post) where u.pubkey = $Pubkey and p.id = $Id merge (u)-[:CREATE]->(p);\<close>
\<close>

definition run_merge_create :: "string \<Rightarrow> string \<Rightarrow> graph \<Rightarrow> error + graph" where
  "run_merge_create pubkey pid g =
     Inr (if pubkey \<in> set (users g) \<and> pid \<in> set (map p_id (posts g))
          then g\<lparr>rels := merge_into (rels g) (Rel CREATE pubkey pid None)\<rparr>
          else g)"

text \<open>
  \<^verbatim>\<open>match (p:Post), (r:Post) where p.id = $Id and r.id = $RefId merge (p)-[:REPLY]->(r);\<close>
  and the same statement for \<open>LIKE\<close> and for \<open>ZAP {amount: $Amount}\<close>: without both
  Post nodes nothing matches and nothing is created.
\<close>

definition run_merge_rel ::
  "reltype \<Rightarrow> string \<Rightarrow> string \<Rightarrow> int option \<Rightarrow> graph \<Rightarrow> error + graph" where
  "run_merge_rel ty pid refid amt g =
     Inr (if pid \<in> set (map p_id (posts g)) \<and> refid \<in> set (map p_id (posts g))
          then g\<lparr>rels := merge_into (rels g) (Rel ty pid refid amt)\<rparr>
          else g)"

text \<open>\<^verbatim>\<open>match (u:User {pubkey: $Pubkey})-[r:FOLLOW]->() delete r;\<close>\<close>

definition follows_from :: "string \<Rightarrow> rel \<Rightarrow> bool" where
  "follows_from pubkey r = (rtype r = FOLLOW \<and> src r = pubkey)"

definition run_delete_follows :: "string \<Rightarrow> graph \<Rightarrow> error + graph" where
  "run_delete_follows pubkey g =
     Inr (g\<lparr>rels := filter (\<lambda>r. \<not> follows_from pubkey r) (rels g)\<rparr>)"

text \<open>
  \<^verbatim>\<open>merge (u:User {pubkey: $Pubkey}) merge (p:User {pubkey: $P}) merge (u)-[:FOLLOW]->(p);\<close>
\<close>

definition run_merge_follow :: "string \<Rightarrow> string \<Rightarrow> graph \<Rightarrow> error + graph" where
  "run_merge_follow pubkey p g =
     Inr (g\<lparr>users := merge_into (merge_into (users g) pubkey) p,
             rels := merge_into (rels g) (Rel FOLLOW pubkey p None)\<rparr>)"

section \<open>The event mutator\<close>

definition saveUserAndPost :: "graph \<Rightarrow> Event \<Rightarrow> error + graph" where
  "saveUserAndPost g event =
     and_then (run_merge_user (PubKey event) g) (\<lambda>g.
     and_then (run_merge_post
                 \<lparr>p_id = ID event, p_kind = Kind event, p_author = PubKey event,
                  p_content = Content event, p_created_at = Unix (CreatedAt event)\<rparr> g) (\<lambda>g.
     run_merge_create (PubKey event) (ID event) g))"

definition StorePost :: "error option \<Rightarrow> graph \<Rightarrow> Event \<Rightarrow> error option exec \<times> graph" where
  "StorePost fault g event =
     (case ExecuteWrite fault g (\<lambda>g.
             and_then (saveUserAndPost g event) (\<lambda>g.
             (case GetAll (Tags event) [''e''] of
                [] \<Rightarrow> Inr g
              | ref # _ \<Rightarrow> run_merge_rel REPLY (ID event) (Value ref) None g)))
      of (err, g') \<Rightarrow> (Returns err, g'))"

definition StoreLike :: "error option \<Rightarrow> graph \<Rightarrow> Event \<Rightarrow> error option exec \<times> graph" where
  "StoreLike fault g event =
     (case ExecuteWrite fault g (\<lambda>g.
             and_then (saveUserAndPost g event) (\<lambda>g.
             (case GetAll (Tags event) [''e''] of
                [] \<Rightarrow> Inr g
              | ref # _ \<Rightarrow> run_merge_rel LIKE (ID event) (Value ref) None g)))
      of (err, g') \<Rightarrow> (Returns err, g'))"

text \<open>The loop of \<open>StoreContact\<close> over the \<open>p\<close> tags; an error of a statement ends it.\<close>

fun follow_each :: "string \<Rightarrow> string list list \<Rightarrow> graph \<Rightarrow> error + graph" where
  "follow_each pubkey [] g = Inr g"
| "follow_each pubkey (pTag # tags) g =
     and_then (run_merge_follow pubkey (Value pTag) g) (follow_each pubkey tags)"

definition StoreContact :: "error option \<Rightarrow> graph \<Rightarrow> Event \<Rightarrow> error option exec \<times> graph" where
  "StoreContact fault g event =
     (case ExecuteWrite fault g (\<lambda>g.
             and_then (run_delete_follows (PubKey event) g) (\<lambda>g.
             follow_each (PubKey event) (GetAll (Tags event) [''p'']) g))
      of (err, g') \<Rightarrow> (Returns err, g'))"

text \<open>
  \<open>StoreZap\<close> calls \<open>Value\<close> on what \<open>GetLast\<close> returned before anything else: on
  \<open>nil\<close> that is a nil pointer dereference. The amount is Go's \<open>int64\<close> division, which
  truncates towards zero (\<open>sdiv\<close>); dividing by 1000 cannot overflow.
\<close>

definition StoreZap ::
  "decoder \<Rightarrow> error option \<Rightarrow> graph \<Rightarrow> Event \<Rightarrow> error option exec \<times> graph" where
  "StoreZap Decodepay fault g event =
     (case GetLast (Tags event) [''bolt11''] of
        None \<Rightarrow> (Panics NilPointerDereference, g)
      | Some bolt11 \<Rightarrow>
          (case Decodepay (Value bolt11) of
             Inl err \<Rightarrow> (Returns (Some err), g)
           | Inr invoice \<Rightarrow>
               (let amount = MSatoshi invoice sdiv 1000 in
                (case ExecuteWrite fault g (\<lambda>g.
                        (case GetAll (Tags event) [''e''] of
                           [] \<Rightarrow> Inr g
                         | ref # _ \<Rightarrow>
                             and_then (saveUserAndPost g event) (\<lambda>g.
                             run_merge_rel ZAP (ID event) (Value ref) (Some amount) g)))
                 of (err, g') \<Rightarrow> (Returns err, g')))))"

definition StoreEvent ::
  "decoder \<Rightarrow> error option \<Rightarrow> graph \<Rightarrow> Event \<Rightarrow> error option exec \<times> graph" where
  "StoreEvent Decodepay fault g event =
     (if Kind event = 1 then StorePost fault g event
      else if Kind event = 7 then StoreLike fault g event
      else if Kind event = 3 then StoreContact fault g event
      else if Kind event = 9735 then StoreZap Decodepay fault g event
      else (Returns None, g))"

section \<open>The feed query\<close>

text \<open>
  \<^verbatim>\<open>match (p:Post) where p.created_at > $Start and p.created_at < $End
  optional match (r1:Post)-[:REPLY]->(p) optional match (r2:Post)-[:LIKE]->(p)
  optional match (r3:Post)-[:ZAP]->(p)
  with p, count(distinct r1.author)*15+count(distinct r2.author)*10+count(distinct r3.author)*50 as score
  order by score desc limit $Limit
  return p.id, p.kind, p.author, p.content, p.created_at, score;\<close>
  Each \<open>optional match\<close> extends every row by each Post with such a relationship into
  \<open>p\<close>, or by \<open>null\<close> when there is none; \<open>count(distinct \<dots>)\<close> counts the different
  values that are not \<open>null\<close> among the rows of one \<open>p\<close>. The store refuses a negative
  \<open>LIMIT\<close>. Cypher leaves the order among equal scores open; the model keeps them in
  creation order.
\<close>

definition match_into :: "reltype \<Rightarrow> graph \<Rightarrow> Post \<Rightarrow> Post list" where
  "match_into ty g p =
     concat (map (\<lambda>r. if rtype r = ty \<and> dst r = p_id p
                       then filter (\<lambda>q. p_id q = src r) (posts g) else [])
                 (rels g))"

definition optional_match :: "'a list \<Rightarrow> 'a option list" where
  "optional_match xs = (if xs = [] then [None] else map Some xs)"

definition feed_rows :: "graph \<Rightarrow> Post \<Rightarrow> (Post option \<times> Post option \<times> Post option) list" where
  "feed_rows g p =
     List.product (optional_match (match_into REPLY g p))
       (List.product (optional_match (match_into LIKE g p))
                     (optional_match (match_into ZAP g p)))"

definition count_distinct :: "string option list \<Rightarrow> int" where
  "count_distinct vs = int (length (remdups (List.map_filter (\<lambda>v. v) vs)))"

definition feed_score :: "graph \<Rightarrow> Post \<Rightarrow> int" where
  "feed_score g p =
     (let rows = feed_rows g p in
        count_distinct (map (\<lambda>(r1, r2, r3). map_option p_author r1) rows) * 15
      + count_distinct (map (\<lambda>(r1, r2, r3). map_option p_author r2) rows) * 10
      + count_distinct (map (\<lambda>(r1, r2, r3). map_option p_author r3) rows) * 50)"

definition in_window :: "int \<Rightarrow> int \<Rightarrow> Post \<Rightarrow> bool" where
  "in_window Start End p = (p_created_at p > Start \<and> p_created_at p < End)"

definition run_feed_query :: "int \<Rightarrow> int \<Rightarrow> int \<Rightarrow> graph \<Rightarrow> error + (Post \<times> int) list" where
  "run_feed_query Start End Limit g =
     (if Limit < 0 then Inl InvalidLimit
      else Inr (take (nat Limit)
                  (sort_key (\<lambda>(p, score). - score)
                     (map (\<lambda>p. (p, feed_score g p))
                        (filter (in_window Start End) (posts g))))))"

record FeedEntry =
  fe_Id :: string
  fe_Kind :: int
  fe_Pubkey :: string
  fe_Content :: string
  fe_CreatedAt :: gotime
  fe_Score :: int

definition feed_entry :: "Post \<times> int \<Rightarrow> FeedEntry" where
  "feed_entry row =
     \<lparr>fe_Id = p_id (fst row), fe_Kind = p_kind (fst row), fe_Pubkey = p_author (fst row),
      fe_Content = p_content (fst row), fe_CreatedAt = time_Unix (p_created_at (fst row)) 0,
      fe_Score = snd row\<rparr>"

text \<open>
  \<open>GetFeed\<close> returns a slice and no error: a failure of the read is logged and the
  result is \<open>nil\<close> (\<open>None\<close>); a read that succeeds gives a slice that is not \<open>nil\<close>.
\<close>

definition GetFeed ::
  "error option \<Rightarrow> graph \<Rightarrow> string \<Rightarrow> gotime \<Rightarrow> gotime \<Rightarrow> int \<Rightarrow> FeedEntry list option exec" where
  "GetFeed fault g userPub start end' limit =
     (case ExecuteRead fault g (\<lambda>g.
             (case run_feed_query (Unix start) (Unix end') limit g of
                Inl err \<Rightarrow> Returns (Inl err)
              | Inr result \<Rightarrow> Returns (Inr (map feed_entry result))))
      of Panics p \<Rightarrow> Panics p
       | Returns (Inl err) \<Rightarrow> Returns None
       | Returns (Inr entries) \<Rightarrow> Returns (Some entries))"

section \<open>Subscribers\<close>

text \<open>
  \<open>types.Subscriber\<close> as \<open>GetSubscriber\<close> fills it. The statements:
  \<^verbatim>\<open>MERGE (s:Subscriber {pubkey: $Pubkey}) ON CREATE SET s.channel_secret = $ChannelSecret,
  s.subscribed_at = $SubscribedAt, s.unsubscribed_at = null;\<close>
  \<^verbatim>\<open>MATCH (s:Subscriber {pubkey: $Pubkey}) RETURN s.pubkey, s.channel_secret, s.subscribed_at, s.unsubscribed_at;\<close>
  \<^verbatim>\<open>MATCH (s:Subscriber {pubkey: $Pubkey}) SET s.unsubscribed_at = $UnsubscribedAt;\<close>
  \<^verbatim>\<open>MATCH (s:Subscriber {pubkey: $Pubkey}) SET s.unsubscribed_at = null, s.subscribed_at = $SubscribedAt;\<close>
\<close>

record Subscriber =
  sub_Pubkey :: string
  sub_ChannelSecret :: string
  sub_SubscribedAt :: gotime
  sub_UnsubscribedAt :: gotime

definition run_merge_subscriber :: "string \<Rightarrow> string \<Rightarrow> int \<Rightarrow> graph \<Rightarrow> error + graph" where
  "run_merge_subscriber pubkey channelSecret subscribedAt g =
     Inr (if pubkey \<in> set (map s_pubkey (subscribers g)) then g
          else g\<lparr>subscribers := subscribers g @
                 [\<lparr>s_pubkey = pubkey, s_channel_secret = channelSecret,
                   s_subscribed_at = subscribedAt, s_unsubscribed_at = None\<rparr>]\<rparr>)"

definition run_match_subscriber :: "string \<Rightarrow> graph \<Rightarrow> SubscriberNode list" where
  "run_match_subscriber pubkey g = filter (\<lambda>s. s_pubkey s = pubkey) (subscribers g)"

definition run_set_unsubscribed :: "string \<Rightarrow> int \<Rightarrow> graph \<Rightarrow> error + graph" where
  "run_set_unsubscribed pubkey unsubscribedAt g =
     Inr (g\<lparr>subscribers :=
             map (\<lambda>s. if s_pubkey s = pubkey then s\<lparr>s_unsubscribed_at := Some unsubscribedAt\<rparr> else s)
                 (subscribers g)\<rparr>)"

definition run_set_restored :: "string \<Rightarrow> int \<Rightarrow> graph \<Rightarrow> error + graph" where
  "run_set_restored pubkey subscribedAt g =
     Inr (g\<lparr>subscribers :=
             map (\<lambda>s. if s_pubkey s = pubkey
                       then s\<lparr>s_unsubscribed_at := None, s_subscribed_at := subscribedAt\<rparr> else s)
                 (subscribers g)\<rparr>)"

definition CreateSubscriber ::
  "error option \<Rightarrow> graph \<Rightarrow> string \<Rightarrow> string \<Rightarrow> gotime \<Rightarrow> error option \<times> graph" where
  "CreateSubscriber fault g pubkey channelSK subscribedAt =
     ExecuteWrite fault g (run_merge_subscriber pubkey channelSK (Unix subscribedAt))"

text \<open>
  \<open>result.Single\<close> fails unless there is exactly one record. The record's values are
  then asserted to be \<open>string\<close> or \<open>int64\<close> with the one-result form of the type
  assertion, which panics on \<open>nil\<close>: that is what the store returns for an
  \<open>unsubscribed_at\<close> that is \<open>null\<close>. An error of the read is logged and the result is
  \<open>nil\<close>.
\<close>

definition GetSubscriber :: "error option \<Rightarrow> graph \<Rightarrow> string \<Rightarrow> Subscriber option exec" where
  "GetSubscriber fault g pubkey =
     (case ExecuteRead fault g (\<lambda>g.
             (case run_match_subscriber pubkey g of
                [record] \<Rightarrow>
                  (case s_unsubscribed_at record of
                     None \<Rightarrow> Panics InterfaceConversion
                   | Some unsubscribed \<Rightarrow>
                       Returns (Inr \<lparr>sub_Pubkey = s_pubkey record,
                                     sub_ChannelSecret = s_channel_secret record,
                                     sub_SubscribedAt = time_Unix (s_subscribed_at record) 0,
                                     sub_UnsubscribedAt = time_Unix unsubscribed 0\<rparr>))
              | _ \<Rightarrow> Returns (Inl ResultNotSingle)))
      of Panics p \<Rightarrow> Panics p
       | Returns (Inl err) \<Rightarrow> Returns None
       | Returns (Inr subscriber) \<Rightarrow> Returns (Some subscriber))"

definition DeleteSubscriber ::
  "error option \<Rightarrow> graph \<Rightarrow> string \<Rightarrow> gotime \<Rightarrow> error option \<times> graph" where
  "DeleteSubscriber fault g pubkey unsubscribedAt =
     ExecuteWrite fault g (run_set_unsubscribed pubkey (Unix unsubscribedAt))"

text \<open>
  \<open>RestoreSubscriber\<close> reads a field of what \<open>GetSubscriber\<close> returned without a check
  for \<open>nil\<close>. Its two transactions have a fault each.
\<close>

definition RestoreSubscriber ::
  "error option \<Rightarrow> error option \<Rightarrow> graph \<Rightarrow> string \<Rightarrow> gotime
     \<Rightarrow> (bool \<times> error option) exec \<times> graph" where
  "RestoreSubscriber faultR faultW g pubkey subscribedAt =
     (case GetSubscriber faultR g pubkey of
        Panics p \<Rightarrow> (Panics p, g)
      | Returns None \<Rightarrow> (Panics NilPointerDereference, g)
      | Returns (Some subscriber) \<Rightarrow>
          if IsZero (sub_UnsubscribedAt subscriber) then (Returns (False, None), g)
          else (case ExecuteWrite faultW g (run_set_restored pubkey (Unix subscribedAt)) of
                  (Some err, g') \<Rightarrow> (Returns (False, Some err), g')
                | (None, g') \<Rightarrow> (Returns (True, None), g')))"

subsection \<open>The bot's subscription operations\<close>

text \<open>
  \<open>nostr.GeneratePrivateKey()\<close> and \<open>time.Now()\<close> are inputs of the model: the key that
  was generated and the time that was read.
\<close>

definition GetOrCreateSubscription ::
  "error option \<Rightarrow> error option \<Rightarrow> graph \<Rightarrow> string \<Rightarrow> string \<Rightarrow> gotime
     \<Rightarrow> (string \<times> bool \<times> error option) exec \<times> graph" where
  "GetOrCreateSubscription faultR faultW g subscriberPub generated now =
     (case GetSubscriber faultR g subscriberPub of
        Panics p \<Rightarrow> (Panics p, g)
      | Returns (Some subscriber) \<Rightarrow> (Returns (sub_ChannelSecret subscriber, False, None), g)
      | Returns None \<Rightarrow>
          (case CreateSubscriber faultW g subscriberPub generated now of
             (Some err, g') \<Rightarrow> (Returns ([], False, Some err), g')
           | (None, g') \<Rightarrow> (Returns (generated, True, None), g')))"

definition TerminateSubscription ::
  "error option \<Rightarrow> graph \<Rightarrow> string \<Rightarrow> gotime \<Rightarrow> error option \<times> graph" where
  "TerminateSubscription fault g subscriberPub now = DeleteSubscriber fault g subscriberPub now"

definition RestoreSubscription ::
  "error option \<Rightarrow> error option \<Rightarrow> graph \<Rightarrow> string \<Rightarrow> gotime
     \<Rightarrow> (bool \<times> error option) exec \<times> graph" where
  "RestoreSubscription faultR faultW g subscriberPub now =
     RestoreSubscriber faultR faultW g subscriberPub now"

section \<open>Example inputs\<close>

text \<open>
  Inputs for the worked examples: a decoder that accepts one invoice string, of 3000
  millisatoshi, and refuses every other string; and events with a given id, author,
  creation second, kind and tags.
\<close>

definition example_Decodepay :: decoder where
  "example_Decodepay s =
     (if s = ''lnbc30n1'' then Inr \<lparr>MSatoshi = 3000\<rparr> else Inl DecodeFailure)"

definition example_event ::
  "string \<Rightarrow> string \<Rightarrow> int \<Rightarrow> int \<Rightarrow> string list list \<Rightarrow> Event" where
  "example_event i pk t k tg =
     \<lparr>ID = i, PubKey = pk, CreatedAt = Time t 0, Kind = k, Tags = tg, Content = ''gm''\<rparr>"

definition example_events :: "Event list" where
  "example_events =
     [example_event ''a'' ''u0'' 5 1 [],
      example_event ''b'' ''u1'' 6 1 [[''e'', ''a'']],
      example_event ''c'' ''u2'' 7 1 [[''e'', ''a'']],
      example_event ''d'' ''u1'' 8 1 [[''e'', ''a'']],
      example_event ''l'' ''u3'' 9 7 [[''e'', ''a'']],
      example_event ''z'' ''u3'' 9 9735 [[''e'', ''b''], [''bolt11'', ''lnbc30n1'']]]"

text \<open>
  The graph those events build from the empty one: post \<open>a\<close> has three replies, two of
  them by the same author, and one like; post \<open>b\<close> has one zap.
\<close>

definition example_graph :: graph where
  "example_graph =
     \<lparr>users = [''u0'', ''u1'', ''u2'', ''u3''],
      posts =
        [\<lparr>p_id = ''a'', p_kind = 1, p_author = ''u0'', p_content = ''gm'', p_created_at = 5\<rparr>,
         \<lparr>p_id = ''b'', p_kind = 1, p_author = ''u1'', p_content = ''gm'', p_created_at = 6\<rparr>,
         \<lparr>p_id = ''c'', p_kind = 1, p_author = ''u2'', p_content = ''gm'', p_created_at = 7\<rparr>,
         \<lparr>p_id = ''d'', p_kind = 1, p_author = ''u1'', p_content = ''gm'', p_created_at = 8\<rparr>,
         \<lparr>p_id = ''l'', p_kind = 7, p_author = ''u3'', p_content = ''gm'', p_created_at = 9\<rparr>,
         \<lparr>p_id = ''z'', p_kind = 9735, p_author = ''u3'', p_content = ''gm'', p_created_at = 9\<rparr>],
      subscribers = [],
      rels =
        [Rel CREATE ''u0'' ''a'' None, Rel CREATE ''u1'' ''b'' None, Rel REPLY ''b'' ''a'' None,
         Rel CREATE ''u2'' ''c'' None, Rel REPLY ''c'' ''a'' None, Rel CREATE ''u1'' ''d'' None,
         Rel REPLY ''d'' ''a'' None, Rel CREATE ''u3'' ''l'' None, Rel LIKE ''l'' ''a'' None,
         Rel CREATE ''u3'' ''z'' None, Rel ZAP ''z'' ''b'' (Some 3)]\<rparr>"

definition example_post_a :: Post where
  "example_post_a =
     \<lparr>p_id = ''a'', p_kind = 1, p_author = ''u0'', p_content = ''gm'', p_created_at = 5\<rparr>"

section \<open>Notions of the specification\<close>



text \<open>
  Tags as the specification reads them: a tag with a given key is a tag whose first
  element is that key (a referenced-item tag has the key \<open>e\<close>, an identity tag the key
  \<open>p\<close>). The key of a tag begins with a string when that string is a prefix of its
  first element: so it does for the key \<open>e\<close> itself, and for \<open>expiration\<close> and
  \<open>emoji\<close> too.
\<close>

definition has_key :: "string \<Rightarrow> string list \<Rightarrow> bool" where
  "has_key k tag = (case tag of [] \<Rightarrow> False | key # _ \<Rightarrow> key = k)"

definition key_begins :: "string \<Rightarrow> string list \<Rightarrow> bool" where
  "key_begins k tag = (case tag of [] \<Rightarrow> False | key # _ \<Rightarrow> take (length k) key = k)"

text \<open>
  No duplicates: no two User nodes with one pubkey, no two Post nodes with one id, no
  relationship twice.
\<close>

definition well_formed :: "graph \<Rightarrow> bool" where
  "well_formed g = (distinct (users g) \<and> distinct (map p_id (posts g)) \<and> distinct (rels g))"

text \<open>The FOLLOW relationship that \<open>StoreContact\<close> merges for a \<open>p\<close> tag.\<close>

definition follow_rel :: "string \<Rightarrow> string list \<Rightarrow> rel" where
  "follow_rel pubkey tag = Rel FOLLOW pubkey (Value tag) None"

text \<open>
  The work of a transaction settles when running it again, on the graph it has
  produced, produces that graph again.
\<close>

definition settles :: "(graph \<Rightarrow> error + graph) \<Rightarrow> bool" where
  "settles w = (\<forall>g g'. w g = Inr g' \<longrightarrow> w g' = Inr g')"

section \<open>Payment receipts\<close>

lemmas tag_defs = GetAll_def GetLast_def StartsWith_def HasPrefix_def Value_def

text \<open>
  What the library's functions select for a one-element prefix: the tags whose key
  begins with it, which are more than the tags with that key.
\<close>

lemma StartsWith_key: "StartsWith tag [k] = key_begins k tag"
  by (cases tag) (simp_all add: StartsWith_def HasPrefix_def key_begins_def)

lemma GetAll_key: "GetAll tags [k] = filter (key_begins k) tags"
  by (simp add: GetAll_def StartsWith_key)


lemma has_key_begins: "has_key k tag \<Longrightarrow> key_begins k tag"
  by (cases tag) (simp_all add: has_key_def key_begins_def)

lemma StoreZap_nil:
  "GetLast (Tags event) [''bolt11''] = None \<Longrightarrow>
     StoreZap Decodepay fault g event = (Panics NilPointerDereference, g)"
  by (simp add: StoreZap_def)

lemma StoreZap_returns:
  "GetLast (Tags event) [''bolt11''] = Some b \<Longrightarrow>
     \<exists>err. fst (StoreZap Decodepay fault g event) = Returns err"
  by (auto simp: StoreZap_def Let_def split: sum.splits prod.splits)

text \<open>
  C10. \<open>StoreZap\<close> returns exactly when the event has a \<open>bolt11\<close> tag. Without one it
  panics on the nil tag before the decoder, the store and the check for a referenced
  item are reached, whatever those would have done, and the graph is as before; through
  \<open>StoreEvent\<close> the same holds for an event of kind 9735.
\<close>

theorem StoreZap_total_iff_invoice_tag:
  "((\<exists>err. fst (StoreZap Decodepay fault g event) = Returns err)
      \<longleftrightarrow> GetLast (Tags event) [''bolt11''] \<noteq> None)
   \<and> (GetLast (Tags event) [''bolt11''] = None \<longrightarrow>
        StoreZap Decodepay fault g event = (Panics NilPointerDereference, g)
        \<and> (Kind event = 9735 \<longrightarrow>
             StoreEvent Decodepay fault g event = (Panics NilPointerDereference, g)))"
proof (cases "GetLast (Tags event) [''bolt11'']")
  case None
  then show ?thesis by (simp add: StoreZap_nil StoreEvent_def)
next
  case (Some b)
  then show ?thesis using StoreZap_returns [OF Some] by simp
qed

theorem StoreZap_total_iff_invoice_tag_witness:
  "GetLast (Tags (example_event ''z'' ''u'' 9 9735 [[''e'', ''a'']])) [''bolt11''] = None
   \<and> Kind (example_event ''z'' ''u'' 9 9735 [[''e'', ''a'']]) = 9735
   \<and> StoreEvent example_Decodepay None empty_graph
        (example_event ''z'' ''u'' 9 9735 [[''e'', ''a'']])
       = (Panics NilPointerDereference, empty_graph)
   \<and> \<not> (\<exists>err. fst (StoreZap example_Decodepay None empty_graph
                      (example_event ''z'' ''u'' 9 9735 [[''e'', ''a'']])) = Returns err)"
  using StoreZap_total_iff_invoice_tag
          [of example_Decodepay None empty_graph "example_event ''z'' ''u'' 9 9735 [[''e'', ''a'']]"]
  by (simp add: example_event_def GetLast_def StartsWith_def HasPrefix_def)




text \<open>
  Outside the amended statement: a receipt without a referenced-item tag but with an
  \<open>expiration\<close> tag is taken by \<open>GetAll\<close> to reference an item, and its User, Post and
  CREATE relationship are stored.
\<close>

lemma zap_with_expiration_tag_example:
  "filter (has_key ''e'')
       (Tags (example_event ''z'' ''u'' 9 9735 [[''expiration'', ''123''], [''bolt11'', ''lnbc30n1'']]))
     = []
   \<and> StoreEvent example_Decodepay None empty_graph
        (example_event ''z'' ''u'' 9 9735 [[''expiration'', ''123''], [''bolt11'', ''lnbc30n1'']])
     = (Returns None,
        \<lparr>users = [''u''],
         posts = [\<lparr>p_id = ''z'', p_kind = 9735, p_author = ''u'', p_content = ''gm'',
                    p_created_at = 9\<rparr>],
         subscribers = [],
         rels = [Rel CREATE ''u'' ''z'' None]\<rparr>)"
  by (simp add: example_event_def example_Decodepay_def empty_graph_def has_key_def
        StoreEvent_def StoreZap_def ExecuteWrite_def saveUserAndPost_def and_then_def
        run_merge_user_def run_merge_post_def run_merge_create_def run_merge_rel_def
        merge_into_def tag_defs Unix_def Let_def)

section \<open>Reading the feed\<close>

lemma run_feed_query_rows:
  "run_feed_query Start End Limit g = Inr rows \<Longrightarrow> row \<in> set rows \<Longrightarrow>
     fst row \<in> set (posts g) \<and> in_window Start End (fst row) \<and> snd row = feed_score g (fst row)"
  by (auto simp: run_feed_query_def split: if_splits dest!: in_set_takeD)

lemma GetFeed_Some:
  "GetFeed fault g userPub start end' limit = Returns (Some entries) \<Longrightarrow>
     \<exists>rows. fault = None \<and> run_feed_query (Unix start) (Unix end') limit g = Inr rows
            \<and> entries = map feed_entry rows"
  by (auto simp: GetFeed_def ExecuteRead_def split: option.splits sum.splits)

text \<open>
  C7. Every entry that \<open>GetFeed\<close> returns comes from a Post of the graph whose stored
  creation second is strictly above the second of \<open>start\<close> and strictly below the second
  of \<open>end\<close>; so the entry's creation time is after \<open>start\<close> and before \<open>end\<close>, and
  an item created at the second of \<open>start\<close> or of \<open>end\<close> is not returned.
\<close>

theorem GetFeed_window_exclusive:
  assumes "GetFeed fault g userPub start end' limit = Returns (Some entries)"
    and "e \<in> set entries"
  shows "(\<exists>p \<in> set (posts g). fe_Id e = p_id p \<and> fe_CreatedAt e = time_Unix (p_created_at p) 0
            \<and> Unix start < p_created_at p \<and> p_created_at p < Unix end')
    \<and> Before start (fe_CreatedAt e) \<and> Before (fe_CreatedAt e) end'
    \<and> Unix (fe_CreatedAt e) \<noteq> Unix start \<and> Unix (fe_CreatedAt e) \<noteq> Unix end'"
proof -
  from GetFeed_Some [OF assms(1)] obtain rows where
    q: "run_feed_query (Unix start) (Unix end') limit g = Inr rows"
    and en: "entries = map feed_entry rows"
    by blast
  from assms(2) en obtain row where r: "row \<in> set rows" and e: "e = feed_entry row" by auto
  from run_feed_query_rows [OF q r] have
    p: "fst row \<in> set (posts g)" and w: "in_window (Unix start) (Unix end') (fst row)" by simp_all
  from w have lt: "Unix start < p_created_at (fst row)" "p_created_at (fst row) < Unix end'"
    by (simp_all add: in_window_def)
  have c: "fe_CreatedAt e = time_Unix (p_created_at (fst row)) 0" "fe_Id e = p_id (fst row)"
    by (simp_all add: e feed_entry_def)
  from lt c have "Before start (fe_CreatedAt e)" "Before (fe_CreatedAt e) end'"
    "Unix (fe_CreatedAt e) \<noteq> Unix start" "Unix (fe_CreatedAt e) \<noteq> Unix end'"
    by (simp_all add: Before_def Unix_def time_Unix_def)
  with p lt c show ?thesis by blast
qed

lemma example_window:
  "GetFeed None example_graph ''me'' (Time 5 0) (Time 8 0) 10 = Returns (Some
     [\<lparr>fe_Id = ''b'', fe_Kind = 1, fe_Pubkey = ''u1'', fe_Content = ''gm'',
       fe_CreatedAt = Time 6 0, fe_Score = 50\<rparr>,
      \<lparr>fe_Id = ''c'', fe_Kind = 1, fe_Pubkey = ''u2'', fe_Content = ''gm'',
       fe_CreatedAt = Time 7 0, fe_Score = 0\<rparr>])"
  by code_simp

text \<open>
  In the example graph post \<open>a\<close> was created at second 5 and post \<open>d\<close> at second 8:
  the window from 5 to 8 returns neither, only \<open>b\<close> and \<open>c\<close> between them.
\<close>

theorem GetFeed_window_exclusive_witness:
  "GetFeed None example_graph ''me'' (Time 5 0) (Time 8 0) 10 = Returns (Some
     [\<lparr>fe_Id = ''b'', fe_Kind = 1, fe_Pubkey = ''u1'', fe_Content = ''gm'',
       fe_CreatedAt = Time 6 0, fe_Score = 50\<rparr>,
      \<lparr>fe_Id = ''c'', fe_Kind = 1, fe_Pubkey = ''u2'', fe_Content = ''gm'',
       fe_CreatedAt = Time 7 0, fe_Score = 0\<rparr>])
   \<and> Before (Time 5 0) (Time 7 0) \<and> Before (Time 7 0) (Time 8 0)
   \<and> example_post_a \<in> set (posts example_graph)
   \<and> p_created_at example_post_a = Unix (Time 5 0)"
proof -
  let ?c = "\<lparr>fe_Id = ''c'', fe_Kind = 1, fe_Pubkey = ''u2'', fe_Content = ''gm'',
             fe_CreatedAt = Time 7 0, fe_Score = 0\<rparr>"
  have m: "?c \<in> set [\<lparr>fe_Id = ''b'', fe_Kind = 1, fe_Pubkey = ''u1'', fe_Content = ''gm'',
                       fe_CreatedAt = Time 6 0, fe_Score = 50\<rparr>, ?c]"
    by simp
  from GetFeed_window_exclusive [OF example_window m]
  have b: "Before (Time 5 0) (Time 7 0)" "Before (Time 7 0) (Time 8 0)" by simp_all
  have a: "example_post_a \<in> set (posts example_graph)"
    "p_created_at example_post_a = Unix (Time 5 0)"
    by (simp_all add: example_post_a_def example_graph_def Unix_def)
  from example_window b a show ?thesis by blast
qed

text \<open>
  C9 as stated fails: two different failures of the store give the same result of
  \<open>GetFeed\<close>, a nil slice; the error itself does not reach the caller.
\<close>

theorem GetFeed_store_failure_counterexample:
  "GetFeed (Some ConnectionFailure) empty_graph ''me'' (Time 0 0) (Time 10 0) 5 = Returns None
   \<and> GetFeed (Some TransactionFailure) empty_graph ''me'' (Time 0 0) (Time 10 0) 5 = Returns None
   \<and> ConnectionFailure \<noteq> TransactionFailure"
  by (simp add: GetFeed_def ExecuteRead_def)

text \<open>
  C9, as amended. When the store fails during a read, the read functions return nil
  whatever the error: \<open>GetFeed\<close> a nil slice, \<open>GetSubscriber\<close> a nil pointer. A read of
  the feed that the store serves (with a limit that is not negative) returns a slice
  that is not nil, so the caller can see from the nil that the read failed, not why.
\<close>

theorem read_failure_gives_nil:
  "GetFeed (Some err) g userPub start end' limit = Returns None
   \<and> GetSubscriber (Some err) g pubkey = Returns None
   \<and> (0 \<le> limit \<longrightarrow>
        (\<exists>entries. GetFeed None g userPub start end' limit = Returns (Some entries)))"
  by (simp add: GetFeed_def GetSubscriber_def ExecuteRead_def run_feed_query_def)

theorem read_failure_gives_nil_witness:
  "GetFeed (Some ConnectionFailure) empty_graph ''me'' (Time 0 0) (Time 10 0) 5 = Returns None
   \<and> GetSubscriber (Some ConnectionFailure) empty_graph ''x'' = Returns None
   \<and> (0::int) \<le> 5
   \<and> (\<exists>entries. GetFeed None empty_graph ''me'' (Time 0 0) (Time 10 0) 5 = Returns (Some entries))"
  using read_failure_gives_nil
          [of ConnectionFailure empty_graph "''me''" "Time 0 0" "Time 10 0" 5 "''x''"]
  by simp

section \<open>Subscriptions\<close>

lemmas subscriber_defs =
  GetSubscriber_def ExecuteRead_def CreateSubscriber_def DeleteSubscriber_def ExecuteWrite_def
  run_merge_subscriber_def run_match_subscriber_def run_set_unsubscribed_def
  run_set_restored_def

text \<open>
  C4, on the code. \<open>RestoreSubscriber\<close> panics on an identity without a Subscriber
  record (nil dereference of what \<open>GetSubscriber\<close> returned) and on an identity whose one
  record is active (\<open>GetSubscriber\<close> asserts the null \<open>unsubscribed_at\<close> to be an
  \<open>int64\<close>); in both cases nothing is returned and the graph is as before. On an
  identity whose one record is inactive it clears \<open>unsubscribed_at\<close>, sets
  \<open>subscribed_at\<close> and returns \<open>(true, nil)\<close>, the store not failing (and the
  stored second of the unsubscription not being that of the zero \<open>time.Time\<close>).
\<close>

theorem RestoreSubscriber_panics:
  "(run_match_subscriber pubkey g = [] \<longrightarrow>
      RestoreSubscriber faultR faultW g pubkey t = (Panics NilPointerDereference, g))
   \<and> (run_match_subscriber pubkey g = [s] \<and> s_unsubscribed_at s = None \<longrightarrow>
      RestoreSubscriber None faultW g pubkey t = (Panics InterfaceConversion, g))
   \<and> (run_match_subscriber pubkey g = [s] \<and> s_unsubscribed_at s = Some u
        \<and> u \<noteq> - 62135596800 \<longrightarrow>
      RestoreSubscriber None None g pubkey t
        = (Returns (True, None),
           g\<lparr>subscribers :=
               map (\<lambda>s. if s_pubkey s = pubkey
                         then s\<lparr>s_unsubscribed_at := None, s_subscribed_at := Unix t\<rparr> else s)
                   (subscribers g)\<rparr>))"
  by (simp add: RestoreSubscriber_def GetSubscriber_def ExecuteRead_def ExecuteWrite_def
        run_set_restored_def IsZero_def time_Unix_def split: option.splits)

theorem RestoreSubscriber_panics_witness:
  "run_match_subscriber ''x'' empty_graph = []
   \<and> RestoreSubscriber None None empty_graph ''x'' (Time 200 0)
       = (Panics NilPointerDereference, empty_graph)
   \<and> run_match_subscriber ''x'' (snd (CreateSubscriber None empty_graph ''x'' ''sk'' (Time 100 0)))
       = [\<lparr>s_pubkey = ''x'', s_channel_secret = ''sk'', s_subscribed_at = 100,
            s_unsubscribed_at = None\<rparr>]
   \<and> RestoreSubscriber None None
        (snd (CreateSubscriber None empty_graph ''x'' ''sk'' (Time 100 0))) ''x'' (Time 200 0)
       = (Panics InterfaceConversion, snd (CreateSubscriber None empty_graph ''x'' ''sk'' (Time 100 0)))
   \<and> fst (RestoreSubscriber None None
        (snd (DeleteSubscriber None
                (snd (CreateSubscriber None empty_graph ''x'' ''sk'' (Time 100 0)))
                ''x'' (Time 150 0)))
        ''x'' (Time 200 0))
       = Returns (True, None)"
proof -
  let ?g = "snd (CreateSubscriber None empty_graph ''x'' ''sk'' (Time 100 0))"
  let ?s = "\<lparr>s_pubkey = ''x'', s_channel_secret = ''sk'', s_subscribed_at = 100,
             s_unsubscribed_at = None\<rparr>"
  let ?h = "snd (DeleteSubscriber None ?g ''x'' (Time 150 0))"
  let ?s' = "\<lparr>s_pubkey = ''x'', s_channel_secret = ''sk'', s_subscribed_at = 100,
              s_unsubscribed_at = Some 150\<rparr>"
  have a: "run_match_subscriber ''x'' empty_graph = []"
    by (simp add: run_match_subscriber_def empty_graph_def)
  have b: "run_match_subscriber ''x'' ?g = [?s]"
    by (simp add: subscriber_defs empty_graph_def Unix_def)
  have b': "run_match_subscriber ''x'' ?h = [?s'] \<and> s_unsubscribed_at ?s' = Some 150
              \<and> (150::int) \<noteq> - 62135596800"
    by (simp add: subscriber_defs empty_graph_def Unix_def)
  from RestoreSubscriber_panics
         [where pubkey = "''x''" and g = empty_graph and faultR = None and faultW = None
            and t = "Time 200 0"] a
  have c: "RestoreSubscriber None None empty_graph ''x'' (Time 200 0)
             = (Panics NilPointerDereference, empty_graph)"
    by blast
  from RestoreSubscriber_panics
         [where pubkey = "''x''" and g = ?g and s = ?s and faultW = None and t = "Time 200 0"] b
  have d: "RestoreSubscriber None None ?g ''x'' (Time 200 0) = (Panics InterfaceConversion, ?g)"
    by simp
  from RestoreSubscriber_panics
         [where pubkey = "''x''" and g = ?h and s = ?s' and u = 150 and t = "Time 200 0"
            and faultR = None and faultW = None] b'
  have "\<exists>h'. RestoreSubscriber None None ?h ''x'' (Time 200 0) = (Returns (True, None), h')"
    by blast
  then have e: "fst (RestoreSubscriber None None ?h ''x'' (Time 200 0)) = Returns (True, None)"
    by auto
  from a b c d e show ?thesis by blast
qed

text \<open>
  C5, on the code. For an identity without a Subscriber record the first
  \<open>GetOrCreateSubscription\<close> persists one record with the generated secret,
  \<open>subscribed_at\<close> now and \<open>unsubscribed_at\<close> null, and returns the secret with
  \<open>isNew = true\<close>. The next call for the identity panics in \<open>GetSubscriber\<close>, on the
  null \<open>unsubscribed_at\<close> of that record, and returns nothing.
\<close>

theorem GetOrCreateSubscription_second_call_panics:
  assumes "run_match_subscriber pubkey g = []"
  shows "GetOrCreateSubscription None None g pubkey generated now
     = (Returns (generated, True, None),
        g\<lparr>subscribers := subscribers g @
             [\<lparr>s_pubkey = pubkey, s_channel_secret = generated,
               s_subscribed_at = Unix now, s_unsubscribed_at = None\<rparr>]\<rparr>)
   \<and> GetOrCreateSubscription None faultW
        (snd (GetOrCreateSubscription None None g pubkey generated now)) pubkey generated' now'
     = (Panics InterfaceConversion, snd (GetOrCreateSubscription None None g pubkey generated now))"
proof -
  from assms have n: "pubkey \<notin> s_pubkey ` set (subscribers g)"
    by (auto simp: run_match_subscriber_def filter_empty_conv)
  let ?g' = "g\<lparr>subscribers := subscribers g @
             [\<lparr>s_pubkey = pubkey, s_channel_secret = generated,
               s_subscribed_at = Unix now, s_unsubscribed_at = None\<rparr>]\<rparr>"
  have first: "GetOrCreateSubscription None None g pubkey generated now
                 = (Returns (generated, True, None), ?g')"
    using assms n by (simp add: GetOrCreateSubscription_def subscriber_defs)
  have "run_match_subscriber pubkey ?g'
          = [\<lparr>s_pubkey = pubkey, s_channel_secret = generated,
               s_subscribed_at = Unix now, s_unsubscribed_at = None\<rparr>]"
    using assms by (simp add: run_match_subscriber_def)
  then have "GetOrCreateSubscription None faultW ?g' pubkey generated' now'
               = (Panics InterfaceConversion, ?g')"
    by (simp add: GetOrCreateSubscription_def GetSubscriber_def ExecuteRead_def)
  with first show ?thesis by simp
qed

theorem GetOrCreateSubscription_second_call_panics_witness:
  "run_match_subscriber ''x'' empty_graph = []
   \<and> GetOrCreateSubscription None None empty_graph ''x'' ''sk'' (Time 100 0)
     = (Returns (''sk'', True, None),
        empty_graph\<lparr>subscribers :=
             [\<lparr>s_pubkey = ''x'', s_channel_secret = ''sk'',
               s_subscribed_at = 100, s_unsubscribed_at = None\<rparr>]\<rparr>)
   \<and> fst (GetOrCreateSubscription None None
        (snd (GetOrCreateSubscription None None empty_graph ''x'' ''sk'' (Time 100 0)))
        ''x'' ''sk2'' (Time 101 0))
     = Panics InterfaceConversion"
proof -
  have a: "run_match_subscriber ''x'' empty_graph = []"
    by (simp add: run_match_subscriber_def empty_graph_def)
  note b = GetOrCreateSubscription_second_call_panics
             [OF a, of "''sk''" "Time 100 0" None "''sk2''" "Time 101 0"]
  from b have c: "GetOrCreateSubscription None None empty_graph ''x'' ''sk'' (Time 100 0)
     = (Returns (''sk'', True, None),
        empty_graph\<lparr>subscribers :=
             [\<lparr>s_pubkey = ''x'', s_channel_secret = ''sk'',
               s_subscribed_at = 100, s_unsubscribed_at = None\<rparr>]\<rparr>)"
    by (simp add: empty_graph_def Unix_def)
  from b have d0: "GetOrCreateSubscription None None
        (snd (GetOrCreateSubscription None None empty_graph ''x'' ''sk'' (Time 100 0)))
        ''x'' ''sk2'' (Time 101 0)
     = (Panics InterfaceConversion,
        snd (GetOrCreateSubscription None None empty_graph ''x'' ''sk'' (Time 100 0)))"
    by (rule conjunct2)
  have d: "fst (GetOrCreateSubscription None None
        (snd (GetOrCreateSubscription None None empty_graph ''x'' ''sk'' (Time 100 0)))
        ''x'' ''sk2'' (Time 101 0))
     = Panics InterfaceConversion"
    by (simp only: d0 fst_conv)
  from a c d show ?thesis by blast
qed

section \<open>Applying an event again\<close>

lemma merge_into_absorb: "x \<in> set xs \<Longrightarrow> merge_into xs x = xs"
  by (simp add: merge_into_def)

lemma set_merge_into: "set (merge_into xs x) = insert x (set xs)"
  by (auto simp: merge_into_def)

lemma ExecuteWrite_settles:
  "settles w \<Longrightarrow>
     snd (ExecuteWrite fault2 (snd (ExecuteWrite None g w)) w) = snd (ExecuteWrite None g w)"
  by (cases fault2; cases "w g") (auto simp: ExecuteWrite_def settles_def)

lemma ExecuteWrite_settles_result:
  "settles w \<Longrightarrow> ExecuteWrite None (snd (ExecuteWrite None g w)) w = ExecuteWrite None g w"
  by (cases "w g") (auto simp: ExecuteWrite_def settles_def)

lemma saveUserAndPost_settles:
  "saveUserAndPost g event = Inr g' \<Longrightarrow> saveUserAndPost g' event = Inr g'"
  by (auto simp: saveUserAndPost_def and_then_def run_merge_user_def run_merge_post_def
        run_merge_create_def set_merge_into merge_into_absorb split: if_splits)

lemma saveUserAndPost_then_rel_settles:
  assumes "and_then (saveUserAndPost g event) (run_merge_rel ty (ID event) refid amt) = Inr g'"
  shows "and_then (saveUserAndPost g' event) (run_merge_rel ty (ID event) refid amt) = Inr g'"
  using assms
  by (auto simp: saveUserAndPost_def and_then_def run_merge_user_def run_merge_post_def
        run_merge_rel_def run_merge_create_def set_merge_into merge_into_absorb
        split: if_splits)

lemma post_work_settles:
  "settles (\<lambda>g. and_then (saveUserAndPost g event) (\<lambda>g.
             (case refs of [] \<Rightarrow> Inr g
              | ref # _ \<Rightarrow> run_merge_rel ty (ID event) (Value ref) amt g)))"
proof (cases refs)
  case Nil
  then show ?thesis
    using saveUserAndPost_settles [of _ event]
    by (auto simp: settles_def and_then_def split: sum.splits)
next
  case (Cons ref rest)
  then show ?thesis
    using saveUserAndPost_then_rel_settles [of _ event ty "Value ref" amt]
    by (simp add: settles_def)
qed

lemma zap_work_settles:
  "settles (\<lambda>g. (case refs of [] \<Rightarrow> Inr g
              | ref # _ \<Rightarrow> and_then (saveUserAndPost g event) (\<lambda>g.
                             run_merge_rel ZAP (ID event) (Value ref) amt g)))"
proof (cases refs)
  case Nil
  then show ?thesis by (simp add: settles_def)
next
  case (Cons ref rest)
  then show ?thesis
    using saveUserAndPost_then_rel_settles [of _ event ZAP "Value ref" amt]
    by (simp add: settles_def)
qed

subsection \<open>The loop over the follow list\<close>

lemma follow_each_eq:
  "follow_each pubkey tags g =
     Inr (g\<lparr>users := fold (\<lambda>t us. merge_into (merge_into us pubkey) (Value t)) tags (users g),
            rels := fold (\<lambda>t rs. merge_into rs (follow_rel pubkey t)) tags (rels g)\<rparr>)"
  by (induction tags arbitrary: g)
     (simp_all add: and_then_def run_merge_follow_def follow_rel_def)

lemma fold_merge_users_absorb:
  "pubkey \<in> set us \<Longrightarrow> Value ` set tags \<subseteq> set us \<Longrightarrow>
     fold (\<lambda>t us. merge_into (merge_into us pubkey) (Value t)) tags us = us"
  by (induction tags) (simp_all add: merge_into_absorb)

lemma set_fold_merge_users:
  "set (fold (\<lambda>t us. merge_into (merge_into us pubkey) (Value t)) tags us)
     = set us \<union> (if tags = [] then {} else {pubkey}) \<union> Value ` set tags"
  by (induction tags arbitrary: us) (auto simp: set_merge_into split: if_splits)

lemma fold_merge_appends:
  "\<exists>zs. fold (\<lambda>t rs. merge_into rs (f t)) tags rs = rs @ zs
        \<and> distinct zs \<and> set zs \<inter> set rs = {} \<and> set zs \<union> set rs = set rs \<union> f ` set tags"
proof (induction tags arbitrary: rs)
  case Nil
  show ?case by simp
next
  case (Cons t tags)
  from Cons.IH [of "merge_into rs (f t)"] obtain zs where
    z: "fold (\<lambda>t rs. merge_into rs (f t)) tags (merge_into rs (f t)) = merge_into rs (f t) @ zs"
      "distinct zs" "set zs \<inter> set (merge_into rs (f t)) = {}"
      "set zs \<union> set (merge_into rs (f t)) = set (merge_into rs (f t)) \<union> f ` set tags"
    by blast
  show ?case
  proof (cases "f t \<in> set rs")
    case True
    with z show ?thesis by (auto simp: merge_into_def)
  next
    case False
    with z have "fold (\<lambda>t rs. merge_into rs (f t)) (t # tags) rs = rs @ (f t # zs)"
      by (simp add: merge_into_def)
    moreover from False z have "distinct (f t # zs)" by (auto simp: merge_into_def)
    moreover from False z have "set (f t # zs) \<inter> set rs = {}" by (auto simp: merge_into_def)
    moreover from False z have "set (f t # zs) \<union> set rs = set rs \<union> f ` set (t # tags)"
      by (auto simp: merge_into_def)
    ultimately show ?thesis by blast
  qed
qed

lemma follows_after_replace:
  assumes "\<forall>r \<in> set rs. \<not> follows_from pubkey r"
  shows "\<exists>zs. fold (\<lambda>t rs. merge_into rs (follow_rel pubkey t)) tags rs = rs @ zs
           \<and> distinct zs \<and> set zs = follow_rel pubkey ` set tags"
proof -
  from fold_merge_appends [of "follow_rel pubkey" tags rs] obtain zs where
    z: "fold (\<lambda>t rs. merge_into rs (follow_rel pubkey t)) tags rs = rs @ zs"
      "distinct zs" "set zs \<inter> set rs = {}"
      "set zs \<union> set rs = set rs \<union> follow_rel pubkey ` set tags"
    by blast
  have "follow_rel pubkey ` set tags \<inter> set rs = {}"
    using assms by (auto simp: follow_rel_def follows_from_def)
  with z(3,4) have "set zs = follow_rel pubkey ` set tags" by blast
  with z show ?thesis by blast
qed

lemma contact_work_eq:
  "and_then (run_delete_follows pubkey g) (follow_each pubkey tags) = Inr g' \<Longrightarrow>
   \<exists>zs. distinct zs \<and> set zs = follow_rel pubkey ` set tags
      \<and> rels g' = filter (\<lambda>r. \<not> follows_from pubkey r) (rels g) @ zs
      \<and> users g' = fold (\<lambda>t us. merge_into (merge_into us pubkey) (Value t)) tags (users g)
      \<and> posts g' = posts g \<and> subscribers g' = subscribers g"
  using follows_after_replace [of "filter (\<lambda>r. \<not> follows_from pubkey r) (rels g)" pubkey tags]
  by (auto simp: and_then_def run_delete_follows_def follow_each_eq)

lemma contact_work_returns:
  "\<exists>g'. and_then (run_delete_follows pubkey g) (follow_each pubkey tags) = Inr g'"
  by (simp add: and_then_def run_delete_follows_def follow_each_eq)

lemma contact_work_settles:
  "settles (\<lambda>g. and_then (run_delete_follows pubkey g) (follow_each pubkey tags))"
  unfolding settles_def
proof (intro allI impI)
  fix g g'
  assume a: "and_then (run_delete_follows pubkey g) (follow_each pubkey tags) = Inr g'"
  let ?keep = "\<lambda>r. \<not> follows_from pubkey r"
  let ?U = "\<lambda>us. fold (\<lambda>t us. merge_into (merge_into us pubkey) (Value t)) tags us"
  let ?R = "\<lambda>rs. fold (\<lambda>t rs. merge_into rs (follow_rel pubkey t)) tags rs"
  from a have g': "g' = g\<lparr>users := ?U (users g), rels := ?R (filter ?keep (rels g))\<rparr>"
    by (simp add: and_then_def run_delete_follows_def follow_each_eq)
  from contact_work_eq [OF a] obtain zs where
    z: "set zs = follow_rel pubkey ` set tags" "rels g' = filter ?keep (rels g) @ zs"
    by blast
  have "filter ?keep zs = []"
    using z(1) by (auto simp: filter_empty_conv follow_rel_def follows_from_def)
  with z(2) have r: "filter ?keep (rels g') = filter ?keep (rels g)" by simp
  have u: "?U (users g') = users g'"
  proof (cases tags)
    case Nil
    then show ?thesis by simp
  next
    case (Cons t ts)
    show ?thesis
    proof (rule fold_merge_users_absorb)
      from Cons have "tags \<noteq> []" by simp
      then show "pubkey \<in> set (users g')"
        by (simp add: g' set_fold_merge_users)
      show "Value ` set tags \<subseteq> set (users g')"
        by (auto simp: g' set_fold_merge_users)
    qed
  qed
  have "and_then (run_delete_follows pubkey g') (follow_each pubkey tags)
          = Inr (g'\<lparr>users := ?U (users g'), rels := ?R (filter ?keep (rels g'))\<rparr>)"
    by (simp add: and_then_def run_delete_follows_def follow_each_eq)
  also have "\<dots> = Inr (g'\<lparr>users := users g', rels := rels g'\<rparr>)"
    unfolding u r by (simp add: g')
  finally show "and_then (run_delete_follows pubkey g') (follow_each pubkey tags) = Inr g'"
    by simp
qed

subsection \<open>Each kind of event\<close>

lemma StorePost_again:
  "snd (StorePost fault2 (snd (StorePost None g event)) event) = snd (StorePost None g event)"
  "StorePost None (snd (StorePost None g event)) event = StorePost None g event"
  using ExecuteWrite_settles [OF post_work_settles [where event = event
          and refs = "GetAll (Tags event) [''e'']" and ty = REPLY and amt = None], of fault2 g]
    ExecuteWrite_settles_result [OF post_work_settles [where event = event
          and refs = "GetAll (Tags event) [''e'']" and ty = REPLY and amt = None], of g]
  by (simp_all add: StorePost_def case_prod_unfold)

lemma StoreLike_again:
  "snd (StoreLike fault2 (snd (StoreLike None g event)) event) = snd (StoreLike None g event)"
  "StoreLike None (snd (StoreLike None g event)) event = StoreLike None g event"
  using ExecuteWrite_settles [OF post_work_settles [where event = event
          and refs = "GetAll (Tags event) [''e'']" and ty = LIKE and amt = None], of fault2 g]
    ExecuteWrite_settles_result [OF post_work_settles [where event = event
          and refs = "GetAll (Tags event) [''e'']" and ty = LIKE and amt = None], of g]
  by (simp_all add: StoreLike_def case_prod_unfold)

lemma StoreContact_again:
  "snd (StoreContact fault2 (snd (StoreContact None g event)) event)
     = snd (StoreContact None g event)"
  "StoreContact None (snd (StoreContact None g event)) event = StoreContact None g event"
  using ExecuteWrite_settles [OF contact_work_settles [where pubkey = "PubKey event"
          and tags = "GetAll (Tags event) [''p'']"], of fault2 g]
    ExecuteWrite_settles_result [OF contact_work_settles [where pubkey = "PubKey event"
          and tags = "GetAll (Tags event) [''p'']"], of g]
  by (simp_all add: StoreContact_def case_prod_unfold)

lemma StoreZap_again:
  "snd (StoreZap Decodepay fault2 (snd (StoreZap Decodepay None g event)) event)
     = snd (StoreZap Decodepay None g event)"
  "StoreZap Decodepay None (snd (StoreZap Decodepay None g event)) event
     = StoreZap Decodepay None g event"
proof -
  have "snd (StoreZap Decodepay fault2 (snd (StoreZap Decodepay None g event)) event)
          = snd (StoreZap Decodepay None g event)
        \<and> StoreZap Decodepay None (snd (StoreZap Decodepay None g event)) event
          = StoreZap Decodepay None g event"
  proof (cases "GetLast (Tags event) [''bolt11'']")
    case None
    then show ?thesis by (simp add: StoreZap_def)
  next
    case (Some bolt11)
    show ?thesis
    proof (cases "Decodepay (Value bolt11)")
      case (Inl err)
      with Some show ?thesis by (simp add: StoreZap_def)
    next
      case (Inr invoice)
      with Some show ?thesis
        using ExecuteWrite_settles [OF zap_work_settles [where event = event
                and refs = "GetAll (Tags event) [''e'']"
                and amt = "Some (MSatoshi invoice sdiv 1000)"], of fault2 g]
          ExecuteWrite_settles_result [OF zap_work_settles [where event = event
                and refs = "GetAll (Tags event) [''e'']"
                and amt = "Some (MSatoshi invoice sdiv 1000)"], of g]
        by (simp add: StoreZap_def case_prod_unfold Let_def)
    qed
  qed
  then show
    "snd (StoreZap Decodepay fault2 (snd (StoreZap Decodepay None g event)) event)
       = snd (StoreZap Decodepay None g event)"
    "StoreZap Decodepay None (snd (StoreZap Decodepay None g event)) event
       = StoreZap Decodepay None g event"
    by simp_all
qed

subsection \<open>No duplicates\<close>

lemma distinct_merge_into: "distinct xs \<Longrightarrow> distinct (merge_into xs x)"
  by (simp add: merge_into_def)

lemma saveUserAndPost_well_formed:
  "well_formed g \<Longrightarrow> saveUserAndPost g event = Inr g' \<Longrightarrow> well_formed g'"
  by (auto simp: well_formed_def saveUserAndPost_def and_then_def run_merge_user_def
        run_merge_post_def run_merge_create_def distinct_merge_into split: if_splits)

lemma run_merge_rel_well_formed:
  "well_formed g \<Longrightarrow> run_merge_rel ty a b amt g = Inr g' \<Longrightarrow> well_formed g'"
  by (auto simp: well_formed_def run_merge_rel_def distinct_merge_into split: if_splits)

lemma distinct_fold_merge:
  "distinct xs \<Longrightarrow> distinct (fold (\<lambda>t acc. merge_into acc (f t)) tags xs)"
  by (induction tags arbitrary: xs) (simp_all add: distinct_merge_into)

lemma distinct_fold_merge_users:
  "distinct us \<Longrightarrow>
     distinct (fold (\<lambda>t us. merge_into (merge_into us pubkey) (Value t)) tags us)"
  by (induction tags arbitrary: us) (simp_all add: distinct_merge_into)

lemma contact_work_well_formed:
  "well_formed g \<Longrightarrow>
     and_then (run_delete_follows pubkey g) (follow_each pubkey tags) = Inr g' \<Longrightarrow>
     well_formed g'"
  by (auto simp: well_formed_def and_then_def run_delete_follows_def follow_each_eq
        distinct_fold_merge distinct_fold_merge_users)

lemma ExecuteWrite_well_formed:
  assumes "well_formed g" and "\<And>g'. work g = Inr g' \<Longrightarrow> well_formed g'"
  shows "well_formed (snd (ExecuteWrite fault g work))"
  using assms by (cases fault; cases "work g") (auto simp: ExecuteWrite_def)

lemma StoreEvent_well_formed:
  assumes "well_formed g"
  shows "well_formed (snd (StoreEvent Decodepay fault g event))"
proof -
  have post: "well_formed (snd (StorePost fault g event))"
    unfolding StorePost_def case_prod_unfold snd_conv
    by (rule ExecuteWrite_well_formed [OF assms])
       (auto simp: and_then_def split: sum.splits list.splits
             dest: saveUserAndPost_well_formed [OF assms] run_merge_rel_well_formed)
  have like: "well_formed (snd (StoreLike fault g event))"
    unfolding StoreLike_def case_prod_unfold snd_conv
    by (rule ExecuteWrite_well_formed [OF assms])
       (auto simp: and_then_def split: sum.splits list.splits
             dest: saveUserAndPost_well_formed [OF assms] run_merge_rel_well_formed)
  have contact: "well_formed (snd (StoreContact fault g event))"
    unfolding StoreContact_def case_prod_unfold snd_conv
    by (rule ExecuteWrite_well_formed [OF assms]) (rule contact_work_well_formed [OF assms])
  have zap: "well_formed (snd (StoreZap Decodepay fault g event))"
  proof (cases "GetLast (Tags event) [''bolt11'']")
    case None
    with assms show ?thesis by (simp add: StoreZap_def)
  next
    case (Some bolt11)
    show ?thesis
    proof (cases "Decodepay (Value bolt11)")
      case (Inl err)
      with Some assms show ?thesis by (simp add: StoreZap_def)
    next
      case (Inr invoice)
      have "well_formed (snd (ExecuteWrite fault g (\<lambda>g.
                        (case GetAll (Tags event) [''e''] of
                           [] \<Rightarrow> Inr g
                         | ref # _ \<Rightarrow>
                             and_then (saveUserAndPost g event) (\<lambda>g.
                             run_merge_rel ZAP (ID event) (Value ref)
                               (Some (MSatoshi invoice sdiv 1000)) g)))))"
        using assms
        by (intro ExecuteWrite_well_formed)
           (auto simp: and_then_def split: sum.splits list.splits
             dest: saveUserAndPost_well_formed [OF assms] run_merge_rel_well_formed)
      with Some Inr show ?thesis
        by (simp add: StoreZap_def case_prod_unfold Let_def)
    qed
  qed
  from assms post like contact zap show ?thesis by (simp add: StoreEvent_def)
qed

text \<open>
  C2. After \<open>StoreEvent\<close> has been applied to an event, applying it to the same event
  again leaves the graph exactly as the first application left it: the lists of User
  nodes, of Post nodes and of relationships are the same lists, so nothing was added a
  second time. That holds for every kind of event, whether or not the second transaction
  fails; when the store does not fail, the second application also returns what the
  first returned. And a graph without duplicate User nodes, Post ids and relationships
  is without them after any application.
\<close>

theorem StoreEvent_idempotent:
  "snd (StoreEvent Decodepay fault2 (snd (StoreEvent Decodepay None g event)) event)
     = snd (StoreEvent Decodepay None g event)
   \<and> StoreEvent Decodepay None (snd (StoreEvent Decodepay None g event)) event
     = StoreEvent Decodepay None g event
   \<and> (well_formed g \<longrightarrow> well_formed (snd (StoreEvent Decodepay fault2 g event)))"
  by (simp add: StoreEvent_def StorePost_again StoreLike_again StoreContact_again
        StoreZap_again StoreEvent_well_formed [unfolded StoreEvent_def])

lemma example_graph_built:
  "fold (\<lambda>event g. snd (StoreEvent example_Decodepay None g event)) example_events empty_graph
     = example_graph"
  by (simp add: example_events_def example_graph_def example_event_def example_Decodepay_def
        empty_graph_def StoreEvent_def StorePost_def StoreLike_def StoreZap_def ExecuteWrite_def
        saveUserAndPost_def and_then_def run_merge_user_def run_merge_post_def
        run_merge_create_def run_merge_rel_def merge_into_def tag_defs Unix_def Let_def)

theorem StoreEvent_idempotent_witness:
  "well_formed example_graph
   \<and> StoreEvent example_Decodepay None example_graph
       (example_event ''r'' ''u2'' 9 1 [[''e'', ''b'']])
     = (Returns None,
        example_graph\<lparr>posts := posts example_graph @
             [\<lparr>p_id = ''r'', p_kind = 1, p_author = ''u2'', p_content = ''gm'', p_created_at = 9\<rparr>],
           rels := rels example_graph @ [Rel CREATE ''u2'' ''r'' None, Rel REPLY ''r'' ''b'' None]\<rparr>)
   \<and> StoreEvent example_Decodepay None
        (snd (StoreEvent example_Decodepay None example_graph
                (example_event ''r'' ''u2'' 9 1 [[''e'', ''b'']])))
        (example_event ''r'' ''u2'' 9 1 [[''e'', ''b'']])
     = (Returns None,
        example_graph\<lparr>posts := posts example_graph @
             [\<lparr>p_id = ''r'', p_kind = 1, p_author = ''u2'', p_content = ''gm'', p_created_at = 9\<rparr>],
           rels := rels example_graph @ [Rel CREATE ''u2'' ''r'' None, Rel REPLY ''r'' ''b'' None]\<rparr>)
   \<and> well_formed (snd (StoreEvent example_Decodepay None example_graph
                         (example_event ''r'' ''u2'' 9 1 [[''e'', ''b'']])))"
proof -
  let ?e = "example_event ''r'' ''u2'' 9 1 [[''e'', ''b'']]"
  have wf: "well_formed example_graph"
    by (simp add: well_formed_def example_graph_def)
  have once: "StoreEvent example_Decodepay None example_graph ?e
     = (Returns None,
        example_graph\<lparr>posts := posts example_graph @
             [\<lparr>p_id = ''r'', p_kind = 1, p_author = ''u2'', p_content = ''gm'', p_created_at = 9\<rparr>],
           rels := rels example_graph @ [Rel CREATE ''u2'' ''r'' None, Rel REPLY ''r'' ''b'' None]\<rparr>)"
    by (simp add: example_graph_def example_event_def
        StoreEvent_def StorePost_def ExecuteWrite_def
        saveUserAndPost_def and_then_def run_merge_user_def run_merge_post_def
        run_merge_create_def run_merge_rel_def merge_into_def tag_defs Unix_def)
  note idem = StoreEvent_idempotent [of example_Decodepay None example_graph ?e]
  from idem have "StoreEvent example_Decodepay None
          (snd (StoreEvent example_Decodepay None example_graph ?e)) ?e
        = StoreEvent example_Decodepay None example_graph ?e"
    by blast
  with once have twice: "StoreEvent example_Decodepay None
          (snd (StoreEvent example_Decodepay None example_graph ?e)) ?e
     = (Returns None,
        example_graph\<lparr>posts := posts example_graph @
             [\<lparr>p_id = ''r'', p_kind = 1, p_author = ''u2'', p_content = ''gm'', p_created_at = 9\<rparr>],
           rels := rels example_graph @ [Rel CREATE ''u2'' ''r'' None, Rel REPLY ''r'' ''b'' None]\<rparr>)"
    by (simp only:)
  from idem wf have wf': "well_formed (snd (StoreEvent example_Decodepay None example_graph ?e))"
    by blast
  from wf once twice wf' show ?thesis by blast
qed

section \<open>Follow lists\<close>

text \<open>
  C3, on the code. Let two follow-list events (kind 3) of one author be applied in
  succession, whatever the first application did and the store not failing on the
  second. The second application returns nil, and afterwards the author's outgoing
  FOLLOW relationships are exactly one for each different value among the tags of the
  second event whose key begins with \<open>p\<close>: the list of them has no duplicates, its
  members are the relationships to those values, and there are as many as there are
  different values. That is one for each identity the event references, as the claim has
  it, only when every tag whose key begins with \<open>p\<close> is an identity tag (has the key
  \<open>p\<close>); a \<open>proxy\<close> tag, say, is followed like an identity. The other relationships
  are those that were there before the second event.
\<close>

theorem follow_list_replaced:
  assumes "Kind ev1 = 3" and "Kind ev2 = 3" and "PubKey ev1 = PubKey ev2"
  shows "\<exists>g1 g2. g1 = snd (StoreEvent Decodepay fault1 g ev1)
     \<and> StoreEvent Decodepay None g1 ev2 = (Returns None, g2)
     \<and> distinct (filter (follows_from (PubKey ev1)) (rels g2))
     \<and> set (filter (follows_from (PubKey ev1)) (rels g2))
         = (\<lambda>p. Rel FOLLOW (PubKey ev1) p None)
             ` Value ` set (filter (key_begins ''p'') (Tags ev2))
     \<and> length (filter (follows_from (PubKey ev1)) (rels g2))
         = card (Value ` set (filter (key_begins ''p'') (Tags ev2)))
     \<and> (filter (key_begins ''p'') (Tags ev2) = filter (has_key ''p'') (Tags ev2)
          \<longrightarrow> set (filter (follows_from (PubKey ev1)) (rels g2))
                = (\<lambda>p. Rel FOLLOW (PubKey ev1) p None)
                    ` Value ` set (filter (has_key ''p'') (Tags ev2))
              \<and> length (filter (follows_from (PubKey ev1)) (rels g2))
                = card (Value ` set (filter (has_key ''p'') (Tags ev2))))
     \<and> filter (\<lambda>r. \<not> follows_from (PubKey ev1) r) (rels g2)
         = filter (\<lambda>r. \<not> follows_from (PubKey ev1) r) (rels g1)"
proof -
  let ?pk = "PubKey ev1"
  let ?tags = "filter (key_begins ''p'') (Tags ev2)"
  let ?g1 = "snd (StoreEvent Decodepay fault1 g ev1)"
  let ?w = "\<lambda>g. and_then (run_delete_follows ?pk g) (follow_each ?pk ?tags)"
  let ?keep = "\<lambda>r. \<not> follows_from ?pk r"
  from contact_work_returns [of ?pk ?g1 ?tags] obtain g2 where w: "?w ?g1 = Inr g2" by blast
  have res: "StoreEvent Decodepay None ?g1 ev2 = (Returns None, g2)"
    using assms w by (simp add: StoreEvent_def StoreContact_def ExecuteWrite_def GetAll_key)
  from contact_work_eq [OF w] obtain zs where
    z: "distinct zs" "set zs = follow_rel ?pk ` set ?tags"
      "rels g2 = filter ?keep (rels ?g1) @ zs"
    by blast
  from z(2) have all: "\<forall>r \<in> set zs. follows_from ?pk r"
    by (auto simp: follow_rel_def follows_from_def)
  then have fz: "filter (follows_from ?pk) zs = zs" "filter ?keep zs = []"
    by (simp_all add: filter_empty_conv)
  have ff: "filter (follows_from ?pk) (rels g2) = zs"
    unfolding z(3) using fz by simp
  have keep: "filter ?keep (rels g2) = filter ?keep (rels ?g1)"
    unfolding z(3) using fz by simp
  have img: "set zs = (\<lambda>p. Rel FOLLOW ?pk p None) ` Value ` set ?tags"
    unfolding z(2) by (auto simp: follow_rel_def image_iff)
  have "inj_on (\<lambda>p. Rel FOLLOW ?pk p None) (Value ` set ?tags)"
    by (simp add: inj_on_def)
  then have "card ((\<lambda>p. Rel FOLLOW ?pk p None) ` Value ` set ?tags) = card (Value ` set ?tags)"
    by (rule card_image)
  with img distinct_card [OF z(1)] have len: "length zs = card (Value ` set ?tags)"
    by simp
  have only: "?tags = filter (has_key ''p'') (Tags ev2)
          \<longrightarrow> set zs = (\<lambda>p. Rel FOLLOW ?pk p None) ` Value ` set (filter (has_key ''p'') (Tags ev2))
              \<and> length zs = card (Value ` set (filter (has_key ''p'') (Tags ev2)))"
  proof
    assume eq: "?tags = filter (has_key ''p'') (Tags ev2)"
    from img len show "set zs = (\<lambda>p. Rel FOLLOW ?pk p None)
                         ` Value ` set (filter (has_key ''p'') (Tags ev2))
              \<and> length zs = card (Value ` set (filter (has_key ''p'') (Tags ev2)))"
      unfolding eq [symmetric] by (rule conjI)
  qed
  from res z(1) img len only keep show ?thesis unfolding ff [symmetric] by blast
qed

text \<open>
  The second event here references one identity, \<open>y\<close>, and carries a \<open>proxy\<close> tag:
  afterwards the author follows \<open>y\<close> and the value of the \<open>proxy\<close> tag, two
  relationships for one referenced identity.
\<close>

theorem follow_list_replaced_witness:
  "Kind (example_event ''f1'' ''u'' 1 3 [[''p'', ''x''], [''p'', ''y'']]) = 3
   \<and> Kind (example_event ''f2'' ''u'' 2 3
             [[''p'', ''y''], [''proxy'', ''https://x/1'', ''activitypub'']]) = 3
   \<and> PubKey (example_event ''f1'' ''u'' 1 3 [[''p'', ''x''], [''p'', ''y'']])
       = PubKey (example_event ''f2'' ''u'' 2 3
                   [[''p'', ''y''], [''proxy'', ''https://x/1'', ''activitypub'']])
   \<and> Value ` set (filter (has_key ''p'')
         (Tags (example_event ''f2'' ''u'' 2 3
                  [[''p'', ''y''], [''proxy'', ''https://x/1'', ''activitypub'']])))
       = {''y''}
   \<and> (\<exists>g2. StoreEvent example_Decodepay None
               (snd (StoreEvent example_Decodepay None empty_graph
                       (example_event ''f1'' ''u'' 1 3 [[''p'', ''x''], [''p'', ''y'']])))
               (example_event ''f2'' ''u'' 2 3
                  [[''p'', ''y''], [''proxy'', ''https://x/1'', ''activitypub'']])
             = (Returns None, g2)
          \<and> rels g2 = [Rel FOLLOW ''u'' ''y'' None, Rel FOLLOW ''u'' ''https://x/1'' None]
          \<and> length (filter (follows_from ''u'') (rels g2)) = 2)"
proof -
  let ?e1 = "example_event ''f1'' ''u'' 1 3 [[''p'', ''x''], [''p'', ''y'']]"
  let ?e2 = "example_event ''f2'' ''u'' 2 3
               [[''p'', ''y''], [''proxy'', ''https://x/1'', ''activitypub'']]"
  let ?g1 = "snd (StoreEvent example_Decodepay None empty_graph ?e1)"
  have k: "Kind ?e1 = 3" "Kind ?e2 = 3" "PubKey ?e1 = PubKey ?e2"
    by (simp_all add: example_event_def)
  have pk: "PubKey ?e1 = ''u''" by (simp add: example_event_def)
  have ids: "Value ` set (filter (has_key ''p'') (Tags ?e2)) = {''y''}"
    by (simp add: example_event_def has_key_def Value_def)
  have one: "?g1 = \<lparr>users = [''u'', ''x'', ''y''], posts = [], subscribers = [],
                    rels = [Rel FOLLOW ''u'' ''x'' None, Rel FOLLOW ''u'' ''y'' None]\<rparr>"
    by (simp add: example_event_def empty_graph_def StoreEvent_def StoreContact_def
          ExecuteWrite_def and_then_def run_delete_follows_def run_merge_follow_def
          merge_into_def tag_defs)
  have two: "StoreEvent example_Decodepay None ?g1 ?e2
       = (Returns None,
          \<lparr>users = [''u'', ''x'', ''y'', ''https://x/1''], posts = [], subscribers = [],
           rels = [Rel FOLLOW ''u'' ''y'' None, Rel FOLLOW ''u'' ''https://x/1'' None]\<rparr>)"
    unfolding one
    by (simp add: example_event_def StoreEvent_def StoreContact_def
          ExecuteWrite_def and_then_def run_delete_follows_def run_merge_follow_def
          follows_from_def merge_into_def tag_defs)
  have "Value ` set (filter (key_begins ''p'') (Tags ?e2)) = {''y'', ''https://x/1''}"
    by (auto simp: example_event_def key_begins_def Value_def)
  then have c: "card (Value ` set (filter (key_begins ''p'') (Tags ?e2))) = 2"
    by simp
  from follow_list_replaced [OF k, of example_Decodepay None empty_graph]
  obtain g1 g2 where
    g1: "g1 = ?g1"
    and st: "StoreEvent example_Decodepay None g1 ?e2 = (Returns None, g2)"
    and ln: "length (filter (follows_from (PubKey ?e1)) (rels g2))
         = card (Value ` set (filter (key_begins ''p'') (Tags ?e2)))"
    by (elim exE conjE)
  note g2 = st [unfolded g1] ln
  from g2(1) two have "g2 = \<lparr>users = [''u'', ''x'', ''y'', ''https://x/1''], posts = [],
           subscribers = [],
           rels = [Rel FOLLOW ''u'' ''y'' None, Rel FOLLOW ''u'' ''https://x/1'' None]\<rparr>"
    by simp
  then have r: "rels g2 = [Rel FOLLOW ''u'' ''y'' None, Rel FOLLOW ''u'' ''https://x/1'' None]"
    by simp
  from g2(2) have l: "length (filter (follows_from ''u'') (rels g2)) = 2"
    unfolding pk c .
  have "\<exists>g2. StoreEvent example_Decodepay None ?g1 ?e2 = (Returns None, g2)
          \<and> rels g2 = [Rel FOLLOW ''u'' ''y'' None, Rel FOLLOW ''u'' ''https://x/1'' None]
          \<and> length (filter (follows_from ''u'') (rels g2)) = 2"
  proof (intro exI conjI)
    show "StoreEvent example_Decodepay None ?g1 ?e2 = (Returns None, g2)" by (rule g2(1))
    show "rels g2 = [Rel FOLLOW ''u'' ''y'' None, Rel FOLLOW ''u'' ''https://x/1'' None]"
      by (rule r)
    show "length (filter (follows_from ''u'') (rels g2)) = 2" by (rule l)
  qed
  with k ids show ?thesis by (intro conjI)
qed

section \<open>The amount of a zap\<close>




section \<open>Ranking\<close>














end
